theory Spec2Isabelle
  imports Complex_Main "HOL-Library.AList" "HOL-Library.Multiset"
begin

section \<open>The articles endpoint (netlify/functions/articles.mts)\<close>

text \<open>
  The file holds one handler: it reads the method and the path of a request, calls a
  key-value store of JSON documents and answers with a status and a JSON body. The
  embedding follows the handler line by line. What the runtime supplies (the clock, the
  conversion of a value to a timestamp, the outcome of each store call, the parsed request
  body) is an argument of the model.
\<close>

subsection \<open>JSON values and the two JavaScript notions the handler uses on them\<close>

text \<open>
  A value as \<open>req.json()\<close> and \<open>store.get(key, {type: "json"})\<close> give it. A number is the
  rational its double denotes; the handler only ever tests a number for being zero. An object
  is the list of its own properties in property order. Strings are lists of code units below
  256 (the type \<open>char\<close>).
\<close>

datatype json =
    JNull
  | JBool bool
  | JNum rat
  | JStr string
  | JArr "json list"
  | JObj "(string \<times> json) list"

text \<open>Truthiness, as \<open>!v\<close>, \<open>v || w\<close> and \<open>v ? a : b\<close> read it.\<close>

fun truthy :: "json \<Rightarrow> bool" where
  "truthy JNull = False"
| "truthy (JBool b) = b"
| "truthy (JNum q) = (q \<noteq> 0)"
| "truthy (JStr s) = (s \<noteq> [])"
| "truthy (JArr xs) = True"
| "truthy (JObj fs) = True"

text \<open>The result of a property read: \<open>None\<close> is \<open>undefined\<close>, which is falsy.\<close>

fun truthy_opt :: "json option \<Rightarrow> bool" where
  "truthy_opt None = False"
| "truthy_opt (Some v) = truthy v"

text \<open>
  \<open>v.k\<close> for a value \<open>v\<close> that is not \<open>null\<close> and one of the names the handler reads
  (\<open>slug\<close>, \<open>title\<close>, \<open>status\<close>, \<open>publishedAt\<close>, \<open>createdAt\<close>): an object gives its own
  property, every other value gives \<open>undefined\<close>, since no prototype has these names.
\<close>

fun prop_of :: "json \<Rightarrow> string \<Rightarrow> json option" where
  "prop_of (JObj fs) k = map_of fs k"
| "prop_of v k = None"

subsection \<open>Slug sanitation (lines 76 to 80)\<close>

text \<open>
  \<open>String.prototype.toLowerCase\<close> on code units below 256: the letters A to Z and the
  Latin-1 capitals (192 to 222, but not the multiplication sign 215) move up by 32.
\<close>

definition toLowerCase_char :: "char \<Rightarrow> char" where
  "toLowerCase_char c =
     (let n = (of_char c :: nat)
      in if (65 \<le> n \<and> n \<le> 90) \<or> (192 \<le> n \<and> n \<le> 222 \<and> n \<noteq> 215)
         then char_of (n + 32) else c)"

definition toLowerCase :: "string \<Rightarrow> string" where
  "toLowerCase s = map toLowerCase_char s"

text \<open>The character class \<open>[a-z0-9-]\<close>.\<close>

definition slug_char :: "char \<Rightarrow> bool" where
  "slug_char c =
     (let n = (of_char c :: nat)
      in (97 \<le> n \<and> n \<le> 122) \<or> (48 \<le> n \<and> n \<le> 57) \<or> n = 45)"

text \<open>\<open>.replace(/[^a-z0-9-]/g, "-")\<close>: every character outside the class becomes a hyphen.\<close>

definition replace_invalid :: "string \<Rightarrow> string" where
  "replace_invalid s = map (\<lambda>c. if slug_char c then c else CHR ''-'') s"

text \<open>\<open>.replace(/-+/g, "-")\<close>: every maximal run of hyphens becomes one hyphen.\<close>

fun collapse_hyphens :: "string \<Rightarrow> string" where
  "collapse_hyphens [] = []"
| "collapse_hyphens [c] = [c]"
| "collapse_hyphens (c # d # cs) =
     (if c = CHR ''-'' \<and> d = CHR ''-'' then collapse_hyphens (d # cs)
      else c # collapse_hyphens (d # cs))"

text \<open>
  \<open>.replace(/^-|-$/g, "")\<close>: a hyphen at the very start is removed, and a hyphen at the
  very end is removed (one of each at most; on the one-character string \<open>"-"\<close> the first
  alternative takes the only hyphen).
\<close>

definition strip_hyphens :: "string \<Rightarrow> string" where
  "strip_hyphens s =
     (let t = (case s of [] \<Rightarrow> [] | c # cs \<Rightarrow> if c = CHR ''-'' then cs else s)
      in if t \<noteq> [] \<and> last t = CHR ''-'' then butlast t else t)"

definition sanitize :: "string \<Rightarrow> string" where
  "sanitize s = strip_hyphens (collapse_hyphens (replace_invalid (toLowerCase s)))"

text \<open>
  The shape of a sanitized slug, used to state what \<open>sanitize\<close> returns: only characters
  of the class, no two hyphens in a row, no hyphen first or last.
\<close>

fun no_double :: "string \<Rightarrow> bool" where
  "no_double [] = True"
| "no_double [c] = True"
| "no_double (c # d # cs) = (\<not> (c = CHR ''-'' \<and> d = CHR ''-'') \<and> no_double (d # cs))"

definition no_lead :: "string \<Rightarrow> bool" where
  "no_lead s = (case s of [] \<Rightarrow> True | c # cs \<Rightarrow> c \<noteq> CHR ''-'')"

definition no_trail :: "string \<Rightarrow> bool" where
  "no_trail s = (s = [] \<or> last s \<noteq> CHR ''-'')"

definition normal_slug :: "string \<Rightarrow> bool" where
  "normal_slug s = (list_all slug_char s \<and> no_double s \<and> no_lead s \<and> no_trail s)"

subsection \<open>The request and its path (lines 21 to 25)\<close>

text \<open>
  An exception: the \<open>TypeError\<close> of a property read on \<open>null\<close> or of a call of a method
  that a value does not have, or whatever \<open>req.json()\<close> or a store call throws, with its
  message.
\<close>

datatype exn = TypeError | Thrown string

text \<open>
  The request: its method (\<open>req.method\<close>, here \<open>req_method\<close>), the path of its URL, and
  what \<open>await req.json()\<close> gives (the parsed body, or the exception of a body that is not
  JSON).
\<close>

record request =
  req_method :: string
  pathname :: string
  json_body :: "exn + json"

text \<open>\<open>pathname.split("/")\<close>: the pieces between the slashes, empty ones included.\<close>

fun split_slash :: "string \<Rightarrow> string list" where
  "split_slash [] = [[]]"
| "split_slash (c # cs) =
     (if c = CHR ''/'' then [] # split_slash cs
      else (case split_slash cs of [] \<Rightarrow> [[c]] | p # ps \<Rightarrow> (c # p) # ps))"

text \<open>\<open>.filter(Boolean)\<close> keeps the pieces that are not empty.\<close>

definition pathParts :: "string \<Rightarrow> string list" where
  "pathParts path = filter (\<lambda>part. part \<noteq> []) (split_slash path)"

text \<open>\<open>.join("/")\<close>.\<close>

fun join_slash :: "string list \<Rightarrow> string" where
  "join_slash [] = []"
| "join_slash [p] = p"
| "join_slash (p # q # ps) = p @ CHR ''/'' # join_slash (q # ps)"

text \<open>
  Line 25: \<open>pathParts.length > 2 ? pathParts.slice(2).join("/") : null\<close>, with \<open>None\<close>
  for \<open>null\<close>.
\<close>

definition slug_of :: "string \<Rightarrow> string option" where
  "slug_of path =
     (let parts = pathParts path
      in if length parts > 2 then Some (join_slash (drop 2 parts)) else None)"

subsection \<open>The store and the platform\<close>

text \<open>
  The store holds one JSON document per key; \<open>store.list()\<close> gives the keys in the order of
  the list. The handle of line 20 and the URL of line 21 are taken as obtained: both lines
  stand before the \<open>try\<close>.
\<close>

type_synonym blobs = "(string \<times> json) list"

datatype store_call = Get string | SetJSON string | Delete string | ListBlobs

text \<open>
  What the runtime supplies during one invocation: the text of
  \<open>new Date().toISOString()\<close>; the number \<open>new Date(v).getTime()\<close> for a property value
  \<open>v\<close> (\<open>None\<close> as argument is \<open>undefined\<close>, \<open>None\<close> as result is \<open>NaN\<close>); and
  for each store call whether it throws, and what.
\<close>

record platform =
  now :: string
  getTime :: "json option \<Rightarrow> int option"
  rejects :: "store_call \<Rightarrow> exn option"

text \<open>\<open>store.get(key, {type: "json"})\<close>: the document, or \<open>null\<close> when the key has none.\<close>

definition store_get :: "platform \<Rightarrow> blobs \<Rightarrow> string \<Rightarrow> exn + json" where
  "store_get p st k =
     (case rejects p (Get k) of
        Some e \<Rightarrow> Inl e
      | None \<Rightarrow> Inr (case map_of st k of None \<Rightarrow> JNull | Some v \<Rightarrow> v))"

text \<open>\<open>store.setJSON(key, value)\<close>; a call that throws leaves the store as it was.\<close>

definition store_setJSON :: "platform \<Rightarrow> blobs \<Rightarrow> string \<Rightarrow> json \<Rightarrow> exn + blobs" where
  "store_setJSON p st k v =
     (case rejects p (SetJSON k) of
        Some e \<Rightarrow> Inl e
      | None \<Rightarrow> Inr (AList.update k v st))"

text \<open>\<open>store.delete(key)\<close>.\<close>

definition store_delete :: "platform \<Rightarrow> blobs \<Rightarrow> string \<Rightarrow> exn + blobs" where
  "store_delete p st k =
     (case rejects p (Delete k) of
        Some e \<Rightarrow> Inl e
      | None \<Rightarrow> Inr (AList.delete k st))"

text \<open>\<open>store.list()\<close>: the keys of the blobs.\<close>

definition store_list :: "platform \<Rightarrow> blobs \<Rightarrow> exn + string list" where
  "store_list p st =
     (case rejects p ListBlobs of
        Some e \<Rightarrow> Inl e
      | None \<Rightarrow> Inr (map fst st))"

subsection \<open>Responses\<close>

text \<open>
  \<open>new Response(JSON.stringify(v), {status, headers})\<close>: the status (200 where the
  source gives none), the one header, and the value that is serialized.
\<close>

record response =
  status :: nat
  content_type :: string
  content :: json

definition json_response :: "nat \<Rightarrow> json \<Rightarrow> response" where
  "json_response code v = \<lparr>status = code, content_type = ''application/json'', content = v\<rparr>"

definition error_body :: "string \<Rightarrow> json" where
  "error_body msg = JObj [(''error'', JStr msg)]"

subsection \<open>GET with a slug (lines 30 to 41)\<close>

definition get_one :: "platform \<Rightarrow> blobs \<Rightarrow> string \<Rightarrow> exn + response \<times> blobs" where
  "get_one p st slug =
     (case store_get p st slug of
        Inl e \<Rightarrow> Inl e
      | Inr article \<Rightarrow>
          if \<not> truthy article
          then Inr (json_response 404 (error_body ''Article not found''), st)
          else Inr (json_response 200 article, st))"

subsection \<open>GET without a slug (lines 42 to 62)\<close>

text \<open>Line 49: \<open>article && article.status === "published"\<close>.\<close>

definition is_published :: "json \<Rightarrow> bool" where
  "is_published article =
     (truthy article \<and> prop_of article ''status'' = Some (JStr ''published''))"

text \<open>
  The loop of lines 47 to 52 over the listed keys: one \<open>store.get\<close> for each key, in
  order; the first call that throws ends the loop.
\<close>

fun collect :: "platform \<Rightarrow> blobs \<Rightarrow> string list \<Rightarrow> json list \<Rightarrow> exn + json list" where
  "collect p st [] articles = Inr articles"
| "collect p st (k # ks) articles =
     (case store_get p st k of
        Inl e \<Rightarrow> Inl e
      | Inr article \<Rightarrow>
          collect p st ks (if is_published article then articles @ [article] else articles))"

text \<open>
  The comparison of lines 55 to 57:
  \<open>new Date(b.publishedAt).getTime() - new Date(a.publishedAt).getTime()\<close>. A difference
  with \<open>NaN\<close> on either side is \<open>NaN\<close> (\<open>None\<close>).
\<close>

definition compare_publishedAt :: "platform \<Rightarrow> json \<Rightarrow> json \<Rightarrow> int option" where
  "compare_publishedAt p a b =
     (case getTime p (prop_of b ''publishedAt'') of
        None \<Rightarrow> None
      | Some tb \<Rightarrow>
          (case getTime p (prop_of a ''publishedAt'') of
             None \<Rightarrow> None
           | Some ta \<Rightarrow> Some (tb - ta)))"

text \<open>
  \<open>Array.prototype.sort\<close> with a comparison function. The language turns a result of
  \<open>NaN\<close> into \<open>+0\<close> and asks for a stable sort; with a comparison that is a consistent
  order, the stable sort is one list, whatever the algorithm. The model is the stable insertion
  sort. With a comparison that gives \<open>NaN\<close> the language leaves the order to the engine;
  on two elements every stable algorithm keeps them as they stand, and on three or more an
  engine may give another order than this model. No statement below depends on the order of
  three or more entries of which one does not parse.
\<close>

definition sortCompare :: "('a \<Rightarrow> 'a \<Rightarrow> int option) \<Rightarrow> 'a \<Rightarrow> 'a \<Rightarrow> int" where
  "sortCompare comparefn x y = (case comparefn x y of None \<Rightarrow> 0 | Some v \<Rightarrow> v)"

fun insert_sorted :: "('a \<Rightarrow> 'a \<Rightarrow> int option) \<Rightarrow> 'a \<Rightarrow> 'a list \<Rightarrow> 'a list" where
  "insert_sorted comparefn x [] = [x]"
| "insert_sorted comparefn x (y # ys) =
     (if sortCompare comparefn x y \<le> 0 then x # y # ys
      else y # insert_sorted comparefn x ys)"

definition array_sort :: "('a \<Rightarrow> 'a \<Rightarrow> int option) \<Rightarrow> 'a list \<Rightarrow> 'a list" where
  "array_sort comparefn xs = foldr (insert_sorted comparefn) xs []"

definition get_list :: "platform \<Rightarrow> blobs \<Rightarrow> exn + response \<times> blobs" where
  "get_list p st =
     (case store_list p st of
        Inl e \<Rightarrow> Inl e
      | Inr keys \<Rightarrow>
          (case collect p st keys [] of
             Inl e \<Rightarrow> Inl e
           | Inr articles \<Rightarrow>
               Inr (json_response 200 (JArr (array_sort (compare_publishedAt p) articles)), st)))"

subsection \<open>POST (lines 64 to 97)\<close>

text \<open>
  The own properties that \<open>...body\<close> copies. Only an object reaches the spread: every other
  value has no \<open>slug\<close> and is answered with 400 before.
\<close>

fun own_props :: "json \<Rightarrow> (string \<times> json) list" where
  "own_props (JObj fs) = fs"
| "own_props v = []"

text \<open>\<open>v?.k\<close>: \<open>undefined\<close> on \<open>null\<close>.\<close>

definition optional_prop :: "json \<Rightarrow> string \<Rightarrow> json option" where
  "optional_prop v k = (if v = JNull then None else prop_of v k)"

text \<open>\<open>a || b\<close>, with \<open>b\<close> a value.\<close>

definition or_else :: "json option \<Rightarrow> json \<Rightarrow> json" where
  "or_else a b = (case a of None \<Rightarrow> b | Some v \<Rightarrow> if truthy v then v else b)"

text \<open>
  Lines 85 to 90. A property of the literal that the spread has already set keeps its place
  and takes the new value; a new one goes last.
\<close>

definition articleToSave :: "platform \<Rightarrow> json \<Rightarrow> string \<Rightarrow> json \<Rightarrow> json" where
  "articleToSave p body sanitizedSlug existingArticle =
     JObj (AList.update ''updatedAt'' (JStr (now p))
            (AList.update ''createdAt''
               (or_else (optional_prop existingArticle ''createdAt'') (JStr (now p)))
               (AList.update ''slug'' (JStr sanitizedSlug) (own_props body))))"

text \<open>
  The case POST. \<open>body.slug\<close> on \<open>null\<close> throws; \<open>body.slug.toLowerCase()\<close> throws when
  the slug is truthy and not a string.
\<close>

definition post :: "platform \<Rightarrow> request \<Rightarrow> blobs \<Rightarrow> exn + response \<times> blobs" where
  "post p req st =
     (case json_body req of
        Inl e \<Rightarrow> Inl e
      | Inr body \<Rightarrow>
          if body = JNull then Inl TypeError
          else if \<not> truthy_opt (prop_of body ''slug'') \<or> \<not> truthy_opt (prop_of body ''title'')
          then Inr (json_response 400 (error_body ''Slug and title are required''), st)
          else
            (case prop_of body ''slug'' of
               Some (JStr s) \<Rightarrow>
                 (let sanitizedSlug = sanitize s in
                  case store_get p st sanitizedSlug of
                    Inl e \<Rightarrow> Inl e
                  | Inr existingArticle \<Rightarrow>
                      (let saved = articleToSave p body sanitizedSlug existingArticle in
                       case store_setJSON p st sanitizedSlug saved of
                         Inl e \<Rightarrow> Inl e
                       | Inr st' \<Rightarrow>
                           Inr (json_response (if truthy existingArticle then 200 else 201) saved,
                                st')))
             | _ \<Rightarrow> Inl TypeError))"

subsection \<open>DELETE (lines 99 to 111)\<close>

definition delete_one :: "platform \<Rightarrow> blobs \<Rightarrow> string \<Rightarrow> exn + response \<times> blobs" where
  "delete_one p st slug =
     (case store_delete p st slug of
        Inl e \<Rightarrow> Inl e
      | Inr st' \<Rightarrow> Inr (json_response 200 (JObj [(''success'', JBool True)]), st'))"

subsection \<open>The handler (lines 19 to 126)\<close>

text \<open>\<open>if (slug)\<close> on a string or \<open>null\<close>: the string when it is not empty.\<close>

fun given :: "string option \<Rightarrow> string option" where
  "given None = None"
| "given (Some s) = (if s = [] then None else Some s)"

text \<open>The \<open>switch\<close> inside the \<open>try\<close>; \<open>Inl\<close> is an exception on its way to the \<open>catch\<close>.\<close>

definition dispatch :: "platform \<Rightarrow> request \<Rightarrow> blobs \<Rightarrow> exn + response \<times> blobs" where
  "dispatch p req st =
     (let slug = slug_of (pathname req) in
      if req_method req = ''GET'' then
        (case given slug of Some k \<Rightarrow> get_one p st k | None \<Rightarrow> get_list p st)
      else if req_method req = ''POST'' then post p req st
      else if req_method req = ''DELETE'' then
        (case given slug of
           None \<Rightarrow> Inr (json_response 400 (error_body ''Slug is required''), st)
         | Some k \<Rightarrow> delete_one p st k)
      else Inr (json_response 405 (error_body ''Method not allowed''), st))"

text \<open>
  One invocation: the response, the store afterwards, and what \<open>console.error\<close> was given.
\<close>

record outcome =
  reply :: response
  store_after :: blobs
  logged :: "exn list"

text \<open>The \<open>catch\<close> of lines 119 to 125: the exception is logged and the answer is 500.\<close>

definition caught :: "blobs \<Rightarrow> exn \<Rightarrow> outcome" where
  "caught st e =
     \<lparr>reply = json_response 500 (error_body ''Internal server error''),
      store_after = st, logged = [e]\<rparr>"

definition handler :: "platform \<Rightarrow> request \<Rightarrow> blobs \<Rightarrow> outcome" where
  "handler p req st =
     (case dispatch p req st of
        Inl e \<Rightarrow> caught st e
      | Inr (r, st') \<Rightarrow> \<lparr>reply = r, store_after = st', logged = []\<rparr>)"

subsection \<open>Stores that the handler has written\<close>

text \<open>
  A store as the handler leaves it: one document for each key, and every document an object.
\<close>

fun is_object :: "json \<Rightarrow> bool" where
  "is_object (JObj fs) = True"
| "is_object v = False"

definition well_formed :: "blobs \<Rightarrow> bool" where
  "well_formed st = (distinct (map fst st) \<and> list_all is_object (map snd st))"

subsection \<open>The listing order in the words of the specification\<close>

text \<open>
  The specification sorts the listing by the timestamp of \<open>publishedAt\<close>, and gives an
  entry whose \<open>publishedAt\<close> does not parse the timestamp 0. This key is written from the
  specification, to be compared with what \<open>get_list\<close> returns.
\<close>

definition spec_timestamp :: "platform \<Rightarrow> json \<Rightarrow> int" where
  "spec_timestamp p article =
     (case getTime p (prop_of article ''publishedAt'') of None \<Rightarrow> 0 | Some t \<Rightarrow> t)"

definition parses :: "platform \<Rightarrow> json \<Rightarrow> bool" where
  "parses p article = (getTime p (prop_of article ''publishedAt'') \<noteq> None)"

subsection \<open>A platform and requests for the examples\<close>

text \<open>
  \<open>new Date(v).getTime()\<close> on the values the examples use: two dates in the format of the
  language (milliseconds since 1970 in UTC), \<open>null\<close>, which is 0, and \<open>NaN\<close> for an absent
  property and for a text without a date.
\<close>

definition example_getTime :: "json option \<Rightarrow> int option" where
  "example_getTime v =
     (if v = Some (JStr ''2024-01-01'') then Some 1704067200000
      else if v = Some (JStr ''2024-06-01'') then Some 1717200000000
      else if v = Some JNull then Some 0
      else None)"

text \<open>A platform on which no store call throws.\<close>

definition quiet :: platform where
  "quiet = \<lparr>now = ''2024-07-01T12:00:00.000Z'', getTime = example_getTime,
            rejects = (\<lambda>c. None)\<rparr>"

text \<open>The same platform a day later.\<close>

definition later :: platform where
  "later = quiet\<lparr>now := ''2024-07-02T09:30:00.000Z''\<rparr>"

text \<open>
  Three platforms on which store calls throw: every call, only the writes, only the reads
  of single documents.
\<close>

definition outage :: platform where
  "outage = quiet\<lparr>rejects := (\<lambda>c. Some (Thrown ''store unavailable''))\<rparr>"

definition write_refused :: platform where
  "write_refused =
     quiet\<lparr>rejects := (\<lambda>c. case c of SetJSON k \<Rightarrow> Some (Thrown ''write refused'') | _ \<Rightarrow> None)\<rparr>"

definition read_refused :: platform where
  "read_refused =
     quiet\<lparr>rejects := (\<lambda>c. case c of Get k \<Rightarrow> Some (Thrown ''read timed out'') | _ \<Rightarrow> None)\<rparr>"


definition post_request :: "json \<Rightarrow> request" where
  "post_request v = \<lparr>req_method = ''POST'', pathname = ''/api/articles'', json_body = Inr v\<rparr>"

text \<open>A request without a body: \<open>req.json()\<close> would throw on it.\<close>

definition bare_request :: "string \<Rightarrow> string \<Rightarrow> request" where
  "bare_request m path =
     \<lparr>req_method = m, pathname = path,
      json_body = Inl (Thrown ''Unexpected end of JSON input'')\<rparr>"

section \<open>Properties\<close>

subsection \<open>Slug sanitation\<close>

lemma slug_char_lower: "slug_char c \<Longrightarrow> toLowerCase_char c = c"
  by (auto simp: slug_char_def toLowerCase_char_def Let_def)

lemma slug_char_hyphen: "slug_char (CHR ''-'')"
  by (simp add: slug_char_def)

lemma toLowerCase_id: "list_all slug_char s \<Longrightarrow> toLowerCase s = s"
  by (induction s) (simp_all add: toLowerCase_def slug_char_lower)

lemma replace_invalid_id: "list_all slug_char s \<Longrightarrow> replace_invalid s = s"
  by (induction s) (simp_all add: replace_invalid_def)

lemma replace_invalid_class: "list_all slug_char (replace_invalid s)"
  by (induction s) (simp_all add: replace_invalid_def slug_char_hyphen)

lemma collapse_hyphens_Cons: "\<exists>r. collapse_hyphens (c # cs) = c # r"
  by (induction "c # cs" arbitrary: c cs rule: collapse_hyphens.induct) auto

lemma collapse_hyphens_set: "set (collapse_hyphens s) \<subseteq> set s"
  by (induction s rule: collapse_hyphens.induct) auto

lemma collapse_hyphens_no_double: "no_double (collapse_hyphens s)"
proof (induction s rule: collapse_hyphens.induct)
  case (3 c d cs)
  obtain r where r: "collapse_hyphens (d # cs) = d # r"
    using collapse_hyphens_Cons by blast
  with 3 show ?case by auto
qed simp_all

lemma collapse_hyphens_id: "no_double s \<Longrightarrow> collapse_hyphens s = s"
  by (induction s rule: collapse_hyphens.induct) auto

lemma no_double_tl: "no_double (c # cs) \<Longrightarrow> no_double cs"
  by (cases cs) simp_all

lemma no_double_butlast: "no_double s \<Longrightarrow> no_double (butlast s)"
  by (induction s rule: no_double.induct) (auto split: if_splits)

lemma no_double_tl_lead: "no_double (CHR ''-'' # cs) \<Longrightarrow> no_lead cs"
  by (cases cs) (simp_all add: no_lead_def)

lemma no_double_butlast_trail:
  "no_double s \<Longrightarrow> s \<noteq> [] \<Longrightarrow> last s = CHR ''-'' \<Longrightarrow> no_trail (butlast s)"
  by (induction s rule: no_double.induct) (auto simp: no_trail_def split: if_splits)

lemma no_lead_butlast: "no_lead s \<Longrightarrow> no_lead (butlast s)"
  by (cases s) (auto simp: no_lead_def split: list.splits)

lemma strip_hyphens_set: "set (strip_hyphens s) \<subseteq> set s"
  by (cases s) (auto simp: strip_hyphens_def Let_def dest: in_set_butlastD)

lemma strip_hyphens_shape:
  assumes "no_double s"
  shows "no_double (strip_hyphens s) \<and> no_lead (strip_hyphens s) \<and> no_trail (strip_hyphens s)"
proof -
  define t where "t = (case s of [] \<Rightarrow> [] | c # cs \<Rightarrow> if c = CHR ''-'' then cs else s)"
  have t: "no_double t" "no_lead t"
    using assms
    by (auto simp: t_def no_lead_def split: list.splits dest: no_double_tl no_double_tl_lead)
  have s: "strip_hyphens s = (if t \<noteq> [] \<and> last t = CHR ''-'' then butlast t else t)"
    by (simp add: strip_hyphens_def t_def)
  show ?thesis
  proof (cases "t \<noteq> [] \<and> last t = CHR ''-''")
    case True
    then have "no_trail (butlast t)"
      using t(1) by (simp add: no_double_butlast_trail)
    with True t show ?thesis
      by (simp add: s no_double_butlast no_lead_butlast)
  next
    case False
    with t show ?thesis
      by (auto simp: s no_trail_def)
  qed
qed

lemma strip_hyphens_id: "no_lead s \<Longrightarrow> no_trail s \<Longrightarrow> strip_hyphens s = s"
  by (cases s) (auto simp: strip_hyphens_def no_lead_def no_trail_def)

text \<open>Every result of \<open>sanitize\<close> has the shape of a slug, and \<open>sanitize\<close> keeps such a string.\<close>

lemma sanitize_normal: "normal_slug (sanitize s)"
proof -
  let ?r = "replace_invalid (toLowerCase s)"
  have "set (sanitize s) \<subseteq> set ?r"
    unfolding sanitize_def using strip_hyphens_set collapse_hyphens_set by blast
  moreover have "list_all slug_char ?r" by (rule replace_invalid_class)
  ultimately have "list_all slug_char (sanitize s)"
    by (auto simp: list_all_iff)
  moreover have "no_double (sanitize s) \<and> no_lead (sanitize s) \<and> no_trail (sanitize s)"
    unfolding sanitize_def by (rule strip_hyphens_shape) (rule collapse_hyphens_no_double)
  ultimately show ?thesis by (simp add: normal_slug_def)
qed

lemma sanitize_fixes_normal: "normal_slug s \<Longrightarrow> sanitize s = s"
  by (simp add: normal_slug_def sanitize_def toLowerCase_id replace_invalid_id
      collapse_hyphens_id strip_hyphens_id)

text \<open>
  Claim C2. Sanitation is idempotent: sanitizing a sanitized slug changes nothing, for every
  string; and it sends \<open>"Hello World!"\<close> to \<open>"hello-world"\<close> and \<open>"--a--b--"\<close> to
  \<open>"a-b"\<close>.
\<close>

theorem sanitize_idempotent:
  "sanitize (sanitize s) = sanitize s
   \<and> sanitize ''Hello World!'' = ''hello-world''
   \<and> sanitize ''--a--b--'' = ''a-b''"
proof -
  have "sanitize (sanitize s) = sanitize s"
    by (rule sanitize_fixes_normal) (rule sanitize_normal)
  moreover have "sanitize ''Hello World!'' = ''hello-world''" by code_simp
  moreover have "sanitize ''--a--b--'' = ''a-b''" by code_simp
  ultimately show ?thesis by simp
qed

theorem sanitize_idempotent_witness:
  "sanitize (sanitize ''  My FIRST Post!! '') = sanitize ''  My FIRST Post!! ''
   \<and> sanitize ''  My FIRST Post!! '' = ''my-first-post''"
proof -
  have "sanitize ''  My FIRST Post!! '' = ''my-first-post''" by code_simp
  then show ?thesis
    using sanitize_idempotent [of "''  My FIRST Post!! ''"] by simp
qed

subsection \<open>The path and the dispatch\<close>

lemma join_slash_nonempty: "ps \<noteq> [] \<Longrightarrow> hd ps \<noteq> [] \<Longrightarrow> join_slash ps \<noteq> []"
  by (induction ps rule: join_slash.induct) auto

lemma slug_of_nonempty: "slug_of path = Some k \<Longrightarrow> k \<noteq> []"
proof -
  assume a: "slug_of path = Some k"
  let ?d = "drop 2 (pathParts path)"
  from a have len: "length (pathParts path) > 2" and k: "k = join_slash ?d"
    by (auto simp: slug_of_def Let_def split: if_splits)
  from len have ne: "?d \<noteq> []" by simp
  then have "hd ?d \<in> set (pathParts path)"
    by (meson in_set_dropD hd_in_set)
  then have "hd ?d \<noteq> []" by (simp add: pathParts_def)
  with ne k show ?thesis by (simp add: join_slash_nonempty)
qed

lemma given_slug_of: "given (slug_of path) = slug_of path"
  by (cases "slug_of path") (auto dest: slug_of_nonempty)

lemma dispatch_GET_slug:
  "req_method req = ''GET'' \<Longrightarrow> slug_of (pathname req) = Some k \<Longrightarrow> dispatch p req st = get_one p st k"
  using given_slug_of [of "pathname req"] by (simp add: dispatch_def)

lemma dispatch_GET_list:
  "req_method req = ''GET'' \<Longrightarrow> slug_of (pathname req) = None \<Longrightarrow> dispatch p req st = get_list p st"
  by (simp add: dispatch_def)

lemma dispatch_POST: "req_method req = ''POST'' \<Longrightarrow> dispatch p req st = post p req st"
  by (simp add: dispatch_def)

lemma dispatch_DELETE_slug:
  "req_method req = ''DELETE'' \<Longrightarrow> slug_of (pathname req) = Some k \<Longrightarrow> dispatch p req st = delete_one p st k"
  using given_slug_of [of "pathname req"] by (simp add: dispatch_def)

lemma dispatch_DELETE_none:
  "req_method req = ''DELETE'' \<Longrightarrow> slug_of (pathname req) = None \<Longrightarrow>
   dispatch p req st = Inr (json_response 400 (error_body ''Slug is required''), st)"
  by (simp add: dispatch_def)

lemma dispatch_other:
  "req_method req \<noteq> ''GET'' \<Longrightarrow> req_method req \<noteq> ''POST'' \<Longrightarrow> req_method req \<noteq> ''DELETE'' \<Longrightarrow>
   dispatch p req st = Inr (json_response 405 (error_body ''Method not allowed''), st)"
  by (simp add: dispatch_def)

lemma handler_Inr:
  "dispatch p req st = Inr (r, st') \<Longrightarrow> handler p req st = \<lparr>reply = r, store_after = st', logged = []\<rparr>"
  by (simp add: handler_def)

lemma handler_Inl: "dispatch p req st = Inl e \<Longrightarrow> handler p req st = caught st e"
  by (simp add: handler_def)

lemma caught_simps [simp]:
  "reply (caught st e) = json_response 500 (error_body ''Internal server error'')"
  "store_after (caught st e) = st"
  "logged (caught st e) = [e]"
  by (simp_all add: caught_def)

subsection \<open>Stores that the handler has written\<close>

lemma objects_update:
  "list_all is_object (map snd st) \<Longrightarrow> list_all is_object (map snd (AList.update k (JObj fs) st))"
  by (induction st) auto

lemma objects_delete:
  "list_all is_object (map snd st) \<Longrightarrow> list_all is_object (map snd (AList.delete k st))"
  by (induction st) auto

lemma well_formed_update: "well_formed st \<Longrightarrow> well_formed (AList.update k (JObj fs) st)"
  by (simp add: well_formed_def distinct_update objects_update)

lemma well_formed_delete: "well_formed st \<Longrightarrow> well_formed (AList.delete k st)"
  by (simp add: well_formed_def distinct_delete objects_delete)

lemma post_store:
  "post p req st = Inr (r, st') \<Longrightarrow> st' = st \<or> (\<exists>k fs. st' = AList.update k (JObj fs) st)"
  by (auto simp: post_def store_setJSON_def articleToSave_def Let_def
      split: sum.splits if_splits option.splits json.splits)

lemma dispatch_store:
  assumes "dispatch p req st = Inr (r, st')"
  shows "st' = st \<or> (\<exists>k fs. st' = AList.update k (JObj fs) st) \<or> (\<exists>k. st' = AList.delete k st)"
proof -
  consider "req_method req = ''GET''" | "req_method req = ''POST''" | "req_method req = ''DELETE''"
    | "req_method req \<noteq> ''GET''" "req_method req \<noteq> ''POST''" "req_method req \<noteq> ''DELETE''"
    by blast
  then show ?thesis
  proof cases
    case 1
    with assms show ?thesis
      by (auto simp: dispatch_def get_one_def get_list_def Let_def
          split: option.splits sum.splits if_splits)
  next
    case 2
    with assms have "post p req st = Inr (r, st')" by (simp add: dispatch_POST)
    then show ?thesis using post_store by blast
  next
    case 3
    with assms show ?thesis
      by (auto simp: dispatch_def delete_one_def store_delete_def Let_def
          split: option.splits sum.splits)
  next
    case 4
    with assms show ?thesis by (simp add: dispatch_other)
  qed
qed

text \<open>
  The handler keeps a store well formed: from the empty store on, every document that a
  lookup yields is an object, and therefore truthy.
\<close>

lemma handler_well_formed:
  assumes "well_formed st"
  shows "well_formed (store_after (handler p req st))"
proof (cases "dispatch p req st")
  case (Inl e)
  with assms show ?thesis by (simp add: handler_def)
next
  case (Inr a)
  obtain r st' where a: "a = (r, st')" by (cases a)
  with Inr have "store_after (handler p req st) = st'" by (simp add: handler_def)
  moreover from Inr a have "st' = st \<or> (\<exists>k fs. st' = AList.update k (JObj fs) st)
      \<or> (\<exists>k. st' = AList.delete k st)"
    using dispatch_store by blast
  ultimately show ?thesis
    using assms well_formed_update well_formed_delete by auto
qed

lemma well_formed_lookup: "well_formed st \<Longrightarrow> map_of st k = Some v \<Longrightarrow> \<exists>fs. v = JObj fs"
proof -
  assume wf: "well_formed st" and v: "map_of st k = Some v"
  from v have "v \<in> set (map snd st)"
    by (force dest: map_of_SomeD)
  with wf have "is_object v"
    by (auto simp: well_formed_def list_all_iff)
  then show ?thesis by (cases v) simp_all
qed

subsection \<open>GET with a slug\<close>

text \<open>
  Claim C5. A GET with a slug segment reads the store under exactly that key. When the key
  has no document the answer is 404 with the body \<open>{"error":"Article not found"}\<close>; when it
  has one, the answer is 200 with that document. An article is an object, and an object is
  returned whatever its status, a draft too. The store is left as it was. (The read is
  taken not to throw.)
\<close>

theorem get_by_slug:
  assumes "req_method req = ''GET''"
    and "slug_of (pathname req) = Some k"
    and "rejects p (Get k) = None"
  shows "(map_of st k = None \<longrightarrow>
            reply (handler p req st) = json_response 404 (error_body ''Article not found''))
       \<and> (\<forall>v. map_of st k = Some v \<and> truthy v \<longrightarrow>
            reply (handler p req st) = json_response 200 v)
       \<and> (\<forall>fs. map_of st k = Some (JObj fs) \<longrightarrow>
            reply (handler p req st) = json_response 200 (JObj fs))
       \<and> store_after (handler p req st) = st"
proof -
  have d: "dispatch p req st = get_one p st k"
    using assms(1,2) by (rule dispatch_GET_slug)
  show ?thesis
    using assms(3) by (auto simp: handler_def d get_one_def store_get_def)
qed

theorem get_by_slug_witness:
  "reply (handler quiet (bare_request ''GET'' ''/api/articles/my-draft'')
       [(''my-draft'', JObj [(''slug'', JStr ''my-draft''), (''status'', JStr ''draft'')])])
     = json_response 200 (JObj [(''slug'', JStr ''my-draft''), (''status'', JStr ''draft'')])
   \<and> reply (handler quiet (bare_request ''GET'' ''/api/articles/my-draft'') [])
     = json_response 404 (error_body ''Article not found'')"
proof -
  have m: "req_method (bare_request ''GET'' ''/api/articles/my-draft'') = ''GET''"
    by (simp add: bare_request_def)
  have s: "slug_of (pathname (bare_request ''GET'' ''/api/articles/my-draft'')) = Some ''my-draft''"
    by (simp add: bare_request_def slug_of_def pathParts_def)
  have r: "rejects quiet (Get ''my-draft'') = None"
    by (simp add: quiet_def)
  show ?thesis
    using get_by_slug [OF m s r, of "[(''my-draft'', JObj [(''slug'', JStr ''my-draft''), (''status'', JStr ''draft'')])]"]
      get_by_slug [OF m s r, of "[]"]
    by simp
qed

subsection \<open>DELETE\<close>

text \<open>
  Claim C6. A DELETE without a slug segment is answered with 400 and the body
  \<open>{"error":"Slug is required"}\<close>, whatever the store would do: no store call is made and
  the store stays as it was. A DELETE with a slug segment deletes under exactly that key and
  answers 200 with \<open>{"success":true}\<close>, also when the key had no document, in which case
  the store stays as it was. (The delete is taken not to throw.)
\<close>

theorem delete_by_slug:
  assumes "req_method req = ''DELETE''"
  shows "(slug_of (pathname req) = None \<longrightarrow>
            handler p req st =
              \<lparr>reply = json_response 400 (error_body ''Slug is required''),
               store_after = st, logged = []\<rparr>)
       \<and> (\<forall>k. slug_of (pathname req) = Some k \<and> rejects p (Delete k) = None \<longrightarrow>
            reply (handler p req st) = json_response 200 (JObj [(''success'', JBool True)])
            \<and> store_after (handler p req st) = AList.delete k st
            \<and> map_of (store_after (handler p req st)) k = None
            \<and> (map_of st k = None \<longrightarrow> store_after (handler p req st) = st))"
proof -
  have none: "slug_of (pathname req) = None \<Longrightarrow>
      handler p req st =
        \<lparr>reply = json_response 400 (error_body ''Slug is required''),
         store_after = st, logged = []\<rparr>"
    using assms by (simp add: handler_Inr dispatch_DELETE_none)
  have some: "reply (handler p req st) = json_response 200 (JObj [(''success'', JBool True)])
      \<and> store_after (handler p req st) = AList.delete k st"
    if "slug_of (pathname req) = Some k" "rejects p (Delete k) = None" for k
    using assms that by (simp add: handler_def dispatch_DELETE_slug delete_one_def store_delete_def)
  have absent: "AList.delete k st = st" if "map_of st k = None" for k
    using that by (simp add: map_of_eq_None_iff)
  show ?thesis
    using none some absent by (auto simp: AList.delete_conv')
qed

theorem delete_by_slug_witness:
  "handler quiet (bare_request ''DELETE'' ''/api/articles'') [(''a'', JObj [])]
     = \<lparr>reply = json_response 400 (error_body ''Slug is required''),
        store_after = [(''a'', JObj [])], logged = []\<rparr>
   \<and> reply (handler quiet (bare_request ''DELETE'' ''/api/articles/gone'') [(''a'', JObj [])])
     = json_response 200 (JObj [(''success'', JBool True)])
   \<and> store_after (handler quiet (bare_request ''DELETE'' ''/api/articles/gone'') [(''a'', JObj [])])
     = [(''a'', JObj [])]
   \<and> store_after (handler quiet (bare_request ''DELETE'' ''/api/articles/a'') [(''a'', JObj [])])
     = []"
proof -
  have m: "req_method (bare_request ''DELETE'' path) = ''DELETE''" for path
    by (simp add: bare_request_def)
  have s0: "slug_of (pathname (bare_request ''DELETE'' ''/api/articles'')) = None"
    by (simp add: bare_request_def slug_of_def pathParts_def)
  have s1: "slug_of (pathname (bare_request ''DELETE'' ''/api/articles/gone'')) = Some ''gone''"
    by (simp add: bare_request_def slug_of_def pathParts_def)
  have s2: "slug_of (pathname (bare_request ''DELETE'' ''/api/articles/a'')) = Some ''a''"
    by (simp add: bare_request_def slug_of_def pathParts_def)
  have r: "rejects quiet (Delete k) = None" for k
    by (simp add: quiet_def)
  show ?thesis
    using delete_by_slug [OF m, of "''/api/articles''" quiet "[(''a'', JObj [])]"]
      delete_by_slug [OF m, of "''/api/articles/gone''" quiet "[(''a'', JObj [])]"]
      delete_by_slug [OF m, of "''/api/articles/a''" quiet "[(''a'', JObj [])]"]
      s0 s1 s2 r
    by simp
qed

subsection \<open>POST: the required fields\<close>

lemma post_falsy:
  assumes "json_body req = Inr body" and "body \<noteq> JNull"
    and "\<not> truthy_opt (prop_of body ''slug'') \<or> \<not> truthy_opt (prop_of body ''title'')"
  shows "post p req st = Inr (json_response 400 (error_body ''Slug and title are required''), st)"
  using assms by (auto simp: post_def)

lemma post_truthy_status:
  assumes "json_body req = Inr body"
    and "truthy_opt (prop_of body ''slug'')" and "truthy_opt (prop_of body ''title'')"
    and "post p req st = Inr (r, st')"
  shows "status r \<noteq> 400"
  using assms
  by (auto simp: post_def json_response_def Let_def
      split: sum.splits option.splits json.splits if_splits)

text \<open>
  Claim C7, amended. For a POST whose body parses to a value other than \<open>null\<close>: the
  answer has status 400 exactly when the slug or the title of the body is falsy or missing,
  and then the body of the answer is \<open>{"error":"Slug and title are required"}\<close>, nothing is
  written to the store and nothing is logged.
\<close>

theorem post_required_fields:
  assumes "req_method req = ''POST''" and "json_body req = Inr body" and "body \<noteq> JNull"
  shows "(status (reply (handler p req st)) = 400
            \<longleftrightarrow> \<not> truthy_opt (prop_of body ''slug'') \<or> \<not> truthy_opt (prop_of body ''title''))
       \<and> (\<not> truthy_opt (prop_of body ''slug'') \<or> \<not> truthy_opt (prop_of body ''title'') \<longrightarrow>
            handler p req st =
              \<lparr>reply = json_response 400 (error_body ''Slug and title are required''),
               store_after = st, logged = []\<rparr>)"
proof (cases "\<not> truthy_opt (prop_of body ''slug'') \<or> \<not> truthy_opt (prop_of body ''title'')")
  case True
  then have "handler p req st =
      \<lparr>reply = json_response 400 (error_body ''Slug and title are required''),
       store_after = st, logged = []\<rparr>"
    using assms by (simp add: handler_Inr dispatch_POST post_falsy)
  with True show ?thesis by (simp add: json_response_def)
next
  case False
  then have "status (reply (handler p req st)) \<noteq> 400"
    using assms(1,2) post_truthy_status [of req body p st]
    by (auto simp: handler_def dispatch_POST json_response_def split: sum.splits)
  with False show ?thesis by simp
qed

theorem post_required_fields_witness:
  "handler quiet (post_request (JObj [(''title'', JStr ''x'')])) []
     = \<lparr>reply = json_response 400 (error_body ''Slug and title are required''),
        store_after = [], logged = []\<rparr>
   \<and> status (reply (handler quiet
        (post_request (JObj [(''slug'', JStr ''a''), (''title'', JStr ''x'')])) [])) \<noteq> 400"
proof -
  have m: "req_method (post_request v) = ''POST''" and b: "json_body (post_request v) = Inr v" for v
    by (simp_all add: post_request_def)
  show ?thesis
    using post_required_fields [OF m b, of "JObj [(''title'', JStr ''x'')]" quiet "[]"]
      post_required_fields [OF m b, of "JObj [(''slug'', JStr ''a''), (''title'', JStr ''x'')]" quiet "[]"]
    by simp
qed

text \<open>
  The claim as stated fails on the body \<open>null\<close>: it has no slug, and line 68 throws on
  reading \<open>body.slug\<close>, so the answer is 500 and not 400.
\<close>

theorem post_null_body_counterexample:
  "\<not> truthy_opt (prop_of JNull ''slug'')
   \<and> reply (handler quiet (post_request JNull) [])
       = json_response 500 (error_body ''Internal server error'')"
  by (simp add: handler_def caught_def dispatch_def post_def post_request_def)

subsection \<open>POST: create or update\<close>

lemma articleToSave_prop:
  "prop_of (articleToSave p body k existing) f =
     (if f = ''updatedAt'' then Some (JStr (now p))
      else if f = ''createdAt''
        then Some (or_else (optional_prop existing ''createdAt'') (JStr (now p)))
      else if f = ''slug'' then Some (JStr k)
      else map_of (own_props body) f)"
  by (simp add: articleToSave_def update_conv')

lemma post_valid:
  assumes "json_body req = Inr (JObj fs)"
    and "map_of fs ''slug'' = Some (JStr s)" and "s \<noteq> []"
    and "truthy_opt (map_of fs ''title'')"
    and "rejects p (Get (sanitize s)) = None"
    and "rejects p (SetJSON (sanitize s)) = None"
    and "existing = (case map_of st (sanitize s) of None \<Rightarrow> JNull | Some v \<Rightarrow> v)"
    and "saved = articleToSave p (JObj fs) (sanitize s) existing"
  shows "post p req st =
     Inr (json_response (if truthy existing then 200 else 201) saved,
          AList.update (sanitize s) saved st)"
  using assms by (simp add: post_def store_get_def store_setJSON_def Let_def)

lemma handler_post_valid:
  assumes "req_method req = ''POST''"
    and "json_body req = Inr (JObj fs)"
    and "map_of fs ''slug'' = Some (JStr s)" and "s \<noteq> []"
    and "truthy_opt (map_of fs ''title'')"
    and "rejects p (Get (sanitize s)) = None"
    and "rejects p (SetJSON (sanitize s)) = None"
    and "existing = (case map_of st (sanitize s) of None \<Rightarrow> JNull | Some v \<Rightarrow> v)"
    and "saved = articleToSave p (JObj fs) (sanitize s) existing"
  shows "handler p req st =
      \<lparr>reply = json_response (if truthy existing then 200 else 201) saved,
       store_after = AList.update (sanitize s) saved st, logged = []\<rparr>"
  using assms(1) post_valid [OF assms(2-9)]
  by (simp add: handler_Inr dispatch_POST)

lemma post_rejected_get:
  assumes "json_body req = Inr (JObj fs)"
    and "map_of fs ''slug'' = Some (JStr s)" and "s \<noteq> []"
    and "truthy_opt (map_of fs ''title'')"
    and "rejects p (Get (sanitize s)) = Some e"
  shows "post p req st = Inl e"
  using assms by (simp add: post_def store_get_def Let_def)

lemma post_rejected_set:
  assumes "json_body req = Inr (JObj fs)"
    and "map_of fs ''slug'' = Some (JStr s)" and "s \<noteq> []"
    and "truthy_opt (map_of fs ''title'')"
    and "rejects p (Get (sanitize s)) = None"
    and "rejects p (SetJSON (sanitize s)) = Some e"
  shows "post p req st = Inl e"
  using assms by (simp add: post_def store_get_def store_setJSON_def Let_def)

text \<open>
  Claim C1, amended. For a POST whose body is an object with a slug that is a string and
  not empty and with a truthy title, when the read and the write of the store do not throw:
  the saved record is the content of the answer, it is in the store under the sanitized slug,
  and its \<open>updatedAt\<close> is the current time. When the store has nothing under the sanitized
  slug the status is 201 and \<open>createdAt\<close> is the current time. When it has a record
  there the status is 200, and \<open>createdAt\<close> is the record's \<open>createdAt\<close> if that is truthy,
  the current time if it is not.
\<close>

theorem post_create_or_update:
  assumes "req_method req = ''POST''"
    and "json_body req = Inr (JObj fs)"
    and "map_of fs ''slug'' = Some (JStr s)" and "s \<noteq> []"
    and "truthy_opt (map_of fs ''title'')"
    and "rejects p (Get (sanitize s)) = None"
    and "rejects p (SetJSON (sanitize s)) = None"
  shows "map_of (store_after (handler p req st)) (sanitize s) = Some (content (reply (handler p req st)))
       \<and> prop_of (content (reply (handler p req st))) ''updatedAt'' = Some (JStr (now p))
       \<and> (map_of st (sanitize s) = None \<longrightarrow>
            status (reply (handler p req st)) = 201
            \<and> prop_of (content (reply (handler p req st))) ''createdAt'' = Some (JStr (now p)))
       \<and> (\<forall>old created. map_of st (sanitize s) = Some (JObj old)
              \<and> map_of old ''createdAt'' = Some created \<and> truthy created \<longrightarrow>
            status (reply (handler p req st)) = 200
            \<and> prop_of (content (reply (handler p req st))) ''createdAt'' = Some created)
       \<and> (\<forall>old. map_of st (sanitize s) = Some (JObj old)
              \<and> \<not> truthy_opt (map_of old ''createdAt'') \<longrightarrow>
            status (reply (handler p req st)) = 200
            \<and> prop_of (content (reply (handler p req st))) ''createdAt'' = Some (JStr (now p)))"
proof -
  define existing where "existing = (case map_of st (sanitize s) of None \<Rightarrow> JNull | Some v \<Rightarrow> v)"
  define saved where "saved = articleToSave p (JObj fs) (sanitize s) existing"
  have h: "handler p req st =
      \<lparr>reply = json_response (if truthy existing then 200 else 201) saved,
       store_after = AList.update (sanitize s) saved st, logged = []\<rparr>"
    using assms existing_def saved_def by (rule handler_post_valid)
  have c: "content (reply (handler p req st)) = saved"
    and st: "status (reply (handler p req st)) = (if truthy existing then 200 else 201)"
    by (simp_all add: h json_response_def)
  have 1: "map_of (store_after (handler p req st)) (sanitize s) = Some saved"
    by (simp add: h update_conv')
  have 2: "prop_of saved ''updatedAt'' = Some (JStr (now p))"
    by (simp add: saved_def articleToSave_prop)
  have 3: "prop_of saved ''createdAt''
      = Some (or_else (optional_prop existing ''createdAt'') (JStr (now p)))"
    by (simp add: saved_def articleToSave_prop)
  show ?thesis
    unfolding c st using 1 2 3
    by (auto simp: existing_def or_else_def optional_prop_def split: option.splits)
qed

theorem post_create_or_update_witness:
  "status (reply (handler quiet
      (post_request (JObj [(''slug'', JStr ''Hello World!''), (''title'', JStr ''Hello'')])) [])) = 201
   \<and> store_after (handler quiet
      (post_request (JObj [(''slug'', JStr ''Hello World!''), (''title'', JStr ''Hello'')])) [])
     = [(''hello-world'', JObj [(''slug'', JStr ''hello-world''), (''title'', JStr ''Hello''),
          (''createdAt'', JStr ''2024-07-01T12:00:00.000Z''),
          (''updatedAt'', JStr ''2024-07-01T12:00:00.000Z'')])]
   \<and> status (reply (handler later
      (post_request (JObj [(''slug'', JStr ''hello-world''), (''title'', JStr ''Hello again'')]))
      [(''hello-world'', JObj [(''slug'', JStr ''hello-world''), (''title'', JStr ''Hello''),
          (''createdAt'', JStr ''2024-07-01T12:00:00.000Z''),
          (''updatedAt'', JStr ''2024-07-01T12:00:00.000Z'')])])) = 200
   \<and> content (reply (handler later
      (post_request (JObj [(''slug'', JStr ''hello-world''), (''title'', JStr ''Hello again'')]))
      [(''hello-world'', JObj [(''slug'', JStr ''hello-world''), (''title'', JStr ''Hello''),
          (''createdAt'', JStr ''2024-07-01T12:00:00.000Z''),
          (''updatedAt'', JStr ''2024-07-01T12:00:00.000Z'')])]))
     = JObj [(''slug'', JStr ''hello-world''), (''title'', JStr ''Hello again''),
          (''createdAt'', JStr ''2024-07-01T12:00:00.000Z''),
          (''updatedAt'', JStr ''2024-07-02T09:30:00.000Z'')]"
proof -
  let ?b1 = "[(''slug'', JStr ''Hello World!''), (''title'', JStr ''Hello'')]"
  let ?b2 = "[(''slug'', JStr ''hello-world''), (''title'', JStr ''Hello again'')]"
  let ?st1 = "[(''hello-world'', JObj [(''slug'', JStr ''hello-world''), (''title'', JStr ''Hello''),
          (''createdAt'', JStr ''2024-07-01T12:00:00.000Z''),
          (''updatedAt'', JStr ''2024-07-01T12:00:00.000Z'')])]"
  have s1: "sanitize ''Hello World!'' = ''hello-world''" by code_simp
  have s2: "sanitize ''hello-world'' = ''hello-world''" by code_simp
  have m: "req_method (post_request v) = ''POST''" and b: "json_body (post_request v) = Inr v" for v
    by (simp_all add: post_request_def)
  have q: "rejects quiet c = None" "rejects later c = None" for c
    by (simp_all add: quiet_def later_def)
  have first: "status (reply (handler quiet (post_request (JObj ?b1)) [])) = 201"
    using post_create_or_update [OF m b, of ?b1 "''Hello World!''" quiet "[]"] q
    by simp
  have stored: "store_after (handler quiet (post_request (JObj ?b1)) []) = ?st1"
    by (simp add: handler_def dispatch_def post_def post_request_def store_get_def
        store_setJSON_def articleToSave_def or_else_def optional_prop_def s1 quiet_def Let_def)
  have second: "status (reply (handler later (post_request (JObj ?b2)) ?st1)) = 200
      \<and> prop_of (content (reply (handler later (post_request (JObj ?b2)) ?st1))) ''createdAt''
          = Some (JStr ''2024-07-01T12:00:00.000Z'')"
    using post_create_or_update [OF m b, of ?b2 "''hello-world''" later ?st1] q
    by (simp add: s2)
  have saved: "content (reply (handler later (post_request (JObj ?b2)) ?st1))
      = JObj [(''slug'', JStr ''hello-world''), (''title'', JStr ''Hello again''),
          (''createdAt'', JStr ''2024-07-01T12:00:00.000Z''),
          (''updatedAt'', JStr ''2024-07-02T09:30:00.000Z'')]"
    by (simp add: handler_def dispatch_def post_def post_request_def store_get_def
        store_setJSON_def articleToSave_def or_else_def optional_prop_def s2 quiet_def later_def
        json_response_def Let_def)
  from first stored second saved show ?thesis by simp
qed

text \<open>
  The claim as stated fails on a slug that is truthy and not a string: the number 5 has
  no \<open>toLowerCase\<close>, line 76 throws and the answer is 500.
\<close>

theorem post_numeric_slug_counterexample:
  "truthy_opt (prop_of (JObj [(''slug'', JNum 5), (''title'', JStr ''x'')]) ''slug'')
   \<and> truthy_opt (prop_of (JObj [(''slug'', JNum 5), (''title'', JStr ''x'')]) ''title'')
   \<and> reply (handler quiet (post_request (JObj [(''slug'', JNum 5), (''title'', JStr ''x'')])) [])
       = json_response 500 (error_body ''Internal server error'')"
  by (simp add: handler_def caught_def dispatch_def post_def post_request_def)

subsection \<open>POST: what is written\<close>

lemma articleToSave_map:
  "\<exists>gs. articleToSave p (JObj fs) k existing = JObj gs
     \<and> map_of gs = (map_of fs)(''slug'' \<mapsto> JStr k,
          ''createdAt'' \<mapsto> or_else (optional_prop existing ''createdAt'') (JStr (now p)),
          ''updatedAt'' \<mapsto> JStr (now p))"
  by (simp add: articleToSave_def update_conv')

lemma post_success_shape:
  assumes "post p req st = Inr (r, st')" and "status r = 200 \<or> status r = 201"
  shows "\<exists>fs s. json_body req = Inr (JObj fs) \<and> map_of fs ''slug'' = Some (JStr s) \<and> s \<noteq> []
      \<and> truthy_opt (map_of fs ''title'')
      \<and> rejects p (Get (sanitize s)) = None \<and> rejects p (SetJSON (sanitize s)) = None"
proof -
  obtain body where body: "json_body req = Inr body"
    using assms(1) by (cases "json_body req") (auto simp: post_def)
  have nn: "body \<noteq> JNull"
    using assms(1) body by (auto simp: post_def)
  have tr: "truthy_opt (prop_of body ''slug'')" "truthy_opt (prop_of body ''title'')"
    using assms body nn by (auto simp: post_def json_response_def split: if_splits)
  then obtain fs where fs: "body = JObj fs"
    by (cases body) auto
  from tr fs assms(1) body obtain s where s: "map_of fs ''slug'' = Some (JStr s)"
    by (auto simp: post_def split: option.splits json.splits)
  have "s \<noteq> []" using tr(1) fs s by simp
  moreover have "rejects p (Get (sanitize s)) = None \<and> rejects p (SetJSON (sanitize s)) = None"
    using assms(1) body fs s tr
    by (auto simp: post_def store_get_def store_setJSON_def Let_def split: option.splits sum.splits)
  ultimately show ?thesis using body fs s tr by auto
qed

text \<open>
  Claim C4. For every POST that succeeds (status 200 or 201) the body is an object with a
  string slug, and the record that is written and returned has exactly these properties:
  \<open>slug\<close> is the sanitized slug, \<open>updatedAt\<close> is the current time, \<open>createdAt\<close> is the
  time stamp (the truthy \<open>createdAt\<close> of the record found under the key, else the current
  time), and every other property is as in the body. Nothing else comes from the record that
  was in the store: a property that the body does not have is not in the saved record. The
  store is the old store with this record under the sanitized slug.
\<close>

theorem post_replaces_record:
  assumes "req_method req = ''POST''"
    and "status (reply (handler p req st)) = 200 \<or> status (reply (handler p req st)) = 201"
  shows "\<exists>fs s gs. json_body req = Inr (JObj fs) \<and> map_of fs ''slug'' = Some (JStr s)
      \<and> content (reply (handler p req st)) = JObj gs
      \<and> store_after (handler p req st) = AList.update (sanitize s) (JObj gs) st
      \<and> map_of gs ''slug'' = Some (JStr (sanitize s))
      \<and> map_of gs ''updatedAt'' = Some (JStr (now p))
      \<and> map_of gs ''createdAt'' =
            Some (or_else (optional_prop (case map_of st (sanitize s) of None \<Rightarrow> JNull | Some v \<Rightarrow> v)
                    ''createdAt'') (JStr (now p)))
      \<and> (\<forall>k. k \<noteq> ''slug'' \<and> k \<noteq> ''createdAt'' \<and> k \<noteq> ''updatedAt'' \<longrightarrow>
            map_of gs k = map_of fs k)"
proof -
  obtain r st' where d: "post p req st = Inr (r, st')"
    using assms by (cases "post p req st") (auto simp: handler_def dispatch_POST json_response_def)
  then have r: "reply (handler p req st) = r"
    using assms(1) by (simp add: handler_def dispatch_POST)
  with assms(2) have "status r = 200 \<or> status r = 201" by simp
  with d obtain fs s where v: "json_body req = Inr (JObj fs)" "map_of fs ''slug'' = Some (JStr s)"
      "s \<noteq> []" "truthy_opt (map_of fs ''title'')"
      "rejects p (Get (sanitize s)) = None" "rejects p (SetJSON (sanitize s)) = None"
    using post_success_shape by blast
  define existing where "existing = (case map_of st (sanitize s) of None \<Rightarrow> JNull | Some v \<Rightarrow> v)"
  obtain gs where gs: "articleToSave p (JObj fs) (sanitize s) existing = JObj gs"
    and m: "map_of gs = (map_of fs)(''slug'' \<mapsto> JStr (sanitize s),
          ''createdAt'' \<mapsto> or_else (optional_prop existing ''createdAt'') (JStr (now p)),
          ''updatedAt'' \<mapsto> JStr (now p))"
    using articleToSave_map by blast
  have h: "handler p req st =
      \<lparr>reply = json_response (if truthy existing then 200 else 201) (JObj gs),
       store_after = AList.update (sanitize s) (JObj gs) st, logged = []\<rparr>"
    using assms(1) v existing_def gs [symmetric] by (rule handler_post_valid)
  have "content (reply (handler p req st)) = JObj gs"
    and "store_after (handler p req st) = AList.update (sanitize s) (JObj gs) st"
    by (simp_all add: h json_response_def)
  moreover have "map_of gs ''slug'' = Some (JStr (sanitize s))"
    and "map_of gs ''updatedAt'' = Some (JStr (now p))"
    and "map_of gs ''createdAt'' = Some (or_else (optional_prop existing ''createdAt'') (JStr (now p)))"
    and "\<forall>k. k \<noteq> ''slug'' \<and> k \<noteq> ''createdAt'' \<and> k \<noteq> ''updatedAt'' \<longrightarrow> map_of gs k = map_of fs k"
    by (simp_all add: m)
  ultimately show ?thesis
    using v(1,2) unfolding existing_def by blast
qed

theorem post_replaces_record_witness:
  "map_of [(''a'', JObj [(''slug'', JStr ''a''), (''title'', JStr ''t''), (''excerpt'', JStr ''old''),
              (''createdAt'', JStr ''2024-07-01T12:00:00.000Z''),
              (''updatedAt'', JStr ''2024-07-01T12:00:00.000Z'')])] ''a''
     = Some (JObj [(''slug'', JStr ''a''), (''title'', JStr ''t''), (''excerpt'', JStr ''old''),
              (''createdAt'', JStr ''2024-07-01T12:00:00.000Z''),
              (''updatedAt'', JStr ''2024-07-01T12:00:00.000Z'')])
   \<and> status (reply (handler later (post_request (JObj [(''slug'', JStr ''a''), (''title'', JStr ''t2'')]))
       [(''a'', JObj [(''slug'', JStr ''a''), (''title'', JStr ''t''), (''excerpt'', JStr ''old''),
              (''createdAt'', JStr ''2024-07-01T12:00:00.000Z''),
              (''updatedAt'', JStr ''2024-07-01T12:00:00.000Z'')])])) = 200
   \<and> prop_of (content (reply (handler later (post_request (JObj [(''slug'', JStr ''a''), (''title'', JStr ''t2'')]))
       [(''a'', JObj [(''slug'', JStr ''a''), (''title'', JStr ''t''), (''excerpt'', JStr ''old''),
              (''createdAt'', JStr ''2024-07-01T12:00:00.000Z''),
              (''updatedAt'', JStr ''2024-07-01T12:00:00.000Z'')])]))) ''excerpt'' = None
   \<and> prop_of (content (reply (handler later (post_request (JObj [(''slug'', JStr ''a''), (''title'', JStr ''t2'')]))
       [(''a'', JObj [(''slug'', JStr ''a''), (''title'', JStr ''t''), (''excerpt'', JStr ''old''),
              (''createdAt'', JStr ''2024-07-01T12:00:00.000Z''),
              (''updatedAt'', JStr ''2024-07-01T12:00:00.000Z'')])]))) ''title'' = Some (JStr ''t2'')"
proof -
  let ?req = "post_request (JObj [(''slug'', JStr ''a''), (''title'', JStr ''t2'')])"
  let ?st = "[(''a'', JObj [(''slug'', JStr ''a''), (''title'', JStr ''t''), (''excerpt'', JStr ''old''),
              (''createdAt'', JStr ''2024-07-01T12:00:00.000Z''),
              (''updatedAt'', JStr ''2024-07-01T12:00:00.000Z'')])]"
  have s: "sanitize ''a'' = ''a''" by code_simp
  have m: "req_method ?req = ''POST''" by (simp add: post_request_def)
  have ok: "status (reply (handler later ?req ?st)) = 200"
    by (simp add: handler_def dispatch_def post_def post_request_def store_get_def
        store_setJSON_def s quiet_def later_def json_response_def Let_def)
  then obtain fs gs where b: "json_body ?req = Inr (JObj fs)"
    and c: "content (reply (handler later ?req ?st)) = JObj gs"
    and k: "\<forall>k. k \<noteq> ''slug'' \<and> k \<noteq> ''createdAt'' \<and> k \<noteq> ''updatedAt'' \<longrightarrow> map_of gs k = map_of fs k"
    using post_replaces_record [OF m, of later ?st] by blast
  from b have fs: "fs = [(''slug'', JStr ''a''), (''title'', JStr ''t2'')]"
    by (simp add: post_request_def)
  have "map_of gs ''excerpt'' = None" "map_of gs ''title'' = Some (JStr ''t2'')"
    using k by (simp_all add: fs)
  with ok c show ?thesis by simp
qed

subsection \<open>POST: a slug that sanitizes to the empty string\<close>




subsection \<open>The key of POST against the key of GET and DELETE\<close>

text \<open>
  Claim C10. GET and DELETE use the path remainder as the key, POST uses the sanitized slug.
  Let the path remainder \<open>k\<close> differ from its sanitized form. A POST with the slug \<open>k\<close>
  stores its record under the sanitized key and leaves the key \<open>k\<close> as it was. A DELETE
  with the path remainder \<open>k\<close> on the store after the POST deletes under \<open>k\<close>, and the
  record of the POST is still there. A GET with the path remainder \<open>k\<close> gets the same answer
  after the POST as before it: 404 when the store had nothing under \<open>k\<close>. (The store calls
  are taken not to throw.)
\<close>

theorem raw_slug_key_mismatch:
  assumes "slug_of path = Some k" and "sanitize k \<noteq> k"
    and "req_method posted = ''POST''" and "json_body posted = Inr (JObj fs)"
    and "map_of fs ''slug'' = Some (JStr k)" and "truthy_opt (map_of fs ''title'')"
    and "req_method del = ''DELETE''" and "pathname del = path"
    and "req_method get = ''GET''" and "pathname get = path"
    and "rejects p (Get (sanitize k)) = None" and "rejects p (SetJSON (sanitize k)) = None"
    and "rejects p' (Delete k) = None" and "rejects p' (Get k) = None"
  shows "map_of (store_after (handler p posted st)) (sanitize k)
           = Some (content (reply (handler p posted st)))
       \<and> map_of (store_after (handler p posted st)) k = map_of st k
       \<and> store_after (handler p' del (store_after (handler p posted st)))
           = AList.delete k (store_after (handler p posted st))
       \<and> map_of (store_after (handler p' del (store_after (handler p posted st)))) (sanitize k)
           = Some (content (reply (handler p posted st)))
       \<and> reply (handler p' get (store_after (handler p posted st))) = reply (handler p' get st)
       \<and> (map_of st k = None \<longrightarrow>
            reply (handler p' get (store_after (handler p posted st)))
              = json_response 404 (error_body ''Article not found''))"
proof -
  define existing where "existing = (case map_of st (sanitize k) of None \<Rightarrow> JNull | Some v \<Rightarrow> v)"
  define saved where "saved = articleToSave p (JObj fs) (sanitize k) existing"
  define st1 where "st1 = AList.update (sanitize k) saved st"
  have ne: "k \<noteq> []" using assms(1) by (rule slug_of_nonempty)
  have h: "handler p posted st =
      \<lparr>reply = json_response (if truthy existing then 200 else 201) saved,
       store_after = AList.update (sanitize k) saved st, logged = []\<rparr>"
    using assms(3,4,5) ne assms(6,11,12) existing_def saved_def by (rule handler_post_valid)
  have after: "store_after (handler p posted st) = st1"
    and c: "content (reply (handler p posted st)) = saved"
    by (simp_all add: h st1_def json_response_def)
  have 1: "map_of st1 (sanitize k) = Some saved"
    by (simp add: st1_def update_conv')
  have 2: "map_of st1 k = map_of st k"
    using assms(2) by (simp add: st1_def update_conv')
  have d: "dispatch p' del s = delete_one p' s k" for s
    using assms(1,7,8) by (simp add: dispatch_DELETE_slug)
  have 3: "store_after (handler p' del st1) = AList.delete k st1"
    using assms(13) by (simp add: handler_def d delete_one_def store_delete_def)
  have 4: "map_of (AList.delete k st1) (sanitize k) = Some saved"
    using assms(2) 1 by (simp add: delete_conv')
  have g: "dispatch p' get s = get_one p' s k" for s
    using assms(1,9,10) by (simp add: dispatch_GET_slug)
  have 5: "reply (handler p' get st1) = reply (handler p' get st)"
    using assms(14) 2 by (simp add: handler_def g get_one_def store_get_def)
  have 6: "reply (handler p' get st) = json_response 404 (error_body ''Article not found'')"
    if "map_of st k = None"
    using assms(14) that by (simp add: handler_def g get_one_def store_get_def)
  show ?thesis
    unfolding after c using 1 2 3 4 5 6 by simp
qed

theorem raw_slug_key_mismatch_witness:
  "sanitize ''Hello'' = ''hello''
   \<and> store_after (handler quiet (post_request (JObj [(''slug'', JStr ''Hello''), (''title'', JStr ''t'')])) [])
     = [(''hello'', JObj [(''slug'', JStr ''hello''), (''title'', JStr ''t''),
                 (''createdAt'', JStr ''2024-07-01T12:00:00.000Z''),
                 (''updatedAt'', JStr ''2024-07-01T12:00:00.000Z'')])]
   \<and> reply (handler later (bare_request ''DELETE'' ''/api/articles/Hello'')
       (store_after (handler quiet
          (post_request (JObj [(''slug'', JStr ''Hello''), (''title'', JStr ''t'')])) [])))
     = json_response 200 (JObj [(''success'', JBool True)])
   \<and> store_after (handler later (bare_request ''DELETE'' ''/api/articles/Hello'')
       (store_after (handler quiet
          (post_request (JObj [(''slug'', JStr ''Hello''), (''title'', JStr ''t'')])) [])))
     = [(''hello'', JObj [(''slug'', JStr ''hello''), (''title'', JStr ''t''),
                 (''createdAt'', JStr ''2024-07-01T12:00:00.000Z''),
                 (''updatedAt'', JStr ''2024-07-01T12:00:00.000Z'')])]
   \<and> reply (handler later (bare_request ''GET'' ''/api/articles/Hello'')
       (store_after (handler quiet
          (post_request (JObj [(''slug'', JStr ''Hello''), (''title'', JStr ''t'')])) [])))
     = json_response 404 (error_body ''Article not found'')"
proof -
  let ?post = "post_request (JObj [(''slug'', JStr ''Hello''), (''title'', JStr ''t'')])"
  let ?del = "bare_request ''DELETE'' ''/api/articles/Hello''"
  let ?get = "bare_request ''GET'' ''/api/articles/Hello''"
  have s: "sanitize ''Hello'' = ''hello''" by code_simp
  have k: "slug_of ''/api/articles/Hello'' = Some ''Hello''"
    by (simp add: slug_of_def pathParts_def)
  have st1: "store_after (handler quiet ?post [])
     = [(''hello'', JObj [(''slug'', JStr ''hello''), (''title'', JStr ''t''),
                 (''createdAt'', JStr ''2024-07-01T12:00:00.000Z''),
                 (''updatedAt'', JStr ''2024-07-01T12:00:00.000Z'')])]"
    by (simp add: handler_def dispatch_def post_def post_request_def store_get_def
        store_setJSON_def articleToSave_def or_else_def optional_prop_def s quiet_def Let_def)
  have n: "map_of ([] :: blobs) ''Hello'' = None" by simp
  have "store_after (handler later ?del (store_after (handler quiet ?post [])))
           = AList.delete ''Hello'' (store_after (handler quiet ?post []))
       \<and> reply (handler later ?get (store_after (handler quiet ?post [])))
              = json_response 404 (error_body ''Article not found'')"
    using n raw_slug_key_mismatch [of "''/api/articles/Hello''" "''Hello''" ?post
        "[(''slug'', JStr ''Hello''), (''title'', JStr ''t'')]" ?del ?get quiet later "[]", OF k]
    unfolding s post_request_def bare_request_def quiet_def later_def
    by (simp (no_asm_use)) blast
  moreover have "reply (handler later ?del (store_after (handler quiet ?post [])))
      = json_response 200 (JObj [(''success'', JBool True)])"
    by (simp add: handler_def dispatch_def bare_request_def k delete_one_def store_delete_def
        quiet_def later_def)
  ultimately show ?thesis
    using s by (simp add: st1)
qed

subsection \<open>Errors and their status\<close>

lemma collect_rejects:
  "k \<in> set ks \<Longrightarrow> rejects p (Get k) = Some e \<Longrightarrow> \<exists>e'. collect p st ks articles = Inl e'"
proof (induction ks arbitrary: articles)
  case Nil
  then show ?case by simp
next
  case (Cons a ks)
  show ?case
  proof (cases "rejects p (Get a)")
    case None
    with Cons.prems have "k \<in> set ks" by auto
    from Cons.IH [OF this Cons.prems(2)] None show ?thesis
      by (simp add: store_get_def)
  next
    case (Some e')
    then show ?thesis by (simp add: store_get_def)
  qed
qed

text \<open>
  Claim C8. A request whose method is not GET, POST or DELETE is answered with 405 and the
  body \<open>{"error":"Method not allowed"}\<close>. Every exception inside the \<open>try\<close> ends in the
  \<open>catch\<close>, whose answer is 500 with the body \<open>{"error":"Internal server error"}\<close>, the
  same for every exception, with the store as it was: the exception of \<open>req.json()\<close>, the
  exception of reading \<open>body.slug\<close> on \<open>null\<close>, and the exception of a store call that
  throws, be it the read or the write of a POST, the read of a GET with a slug, the listing
  or a read of a GET without a slug, or the delete of a DELETE.
\<close>

theorem errors_to_status:
  "(req_method req \<noteq> ''GET'' \<and> req_method req \<noteq> ''POST'' \<and> req_method req \<noteq> ''DELETE'' \<longrightarrow>
      handler p req st =
        \<lparr>reply = json_response 405 (error_body ''Method not allowed''),
         store_after = st, logged = []\<rparr>)
   \<and> (\<forall>e. reply (caught st e) = json_response 500 (error_body ''Internal server error'')
          \<and> store_after (caught st e) = st)
   \<and> (\<forall>e. req_method req = ''POST'' \<and> json_body req = Inl e \<longrightarrow>
          handler p req st = caught st e)
   \<and> (req_method req = ''POST'' \<and> json_body req = Inr JNull \<longrightarrow>
          handler p req st = caught st TypeError)
   \<and> (\<forall>fs s e. req_method req = ''POST'' \<and> json_body req = Inr (JObj fs)
          \<and> map_of fs ''slug'' = Some (JStr s) \<and> s \<noteq> [] \<and> truthy_opt (map_of fs ''title'')
          \<and> rejects p (Get (sanitize s)) = Some e \<longrightarrow>
          handler p req st = caught st e)
   \<and> (\<forall>fs s e. req_method req = ''POST'' \<and> json_body req = Inr (JObj fs)
          \<and> map_of fs ''slug'' = Some (JStr s) \<and> s \<noteq> [] \<and> truthy_opt (map_of fs ''title'')
          \<and> rejects p (Get (sanitize s)) = None \<and> rejects p (SetJSON (sanitize s)) = Some e \<longrightarrow>
          handler p req st = caught st e)
   \<and> (\<forall>k e. req_method req = ''GET'' \<and> slug_of (pathname req) = Some k
          \<and> rejects p (Get k) = Some e \<longrightarrow>
          handler p req st = caught st e)
   \<and> (\<forall>e. req_method req = ''GET'' \<and> slug_of (pathname req) = None
          \<and> rejects p ListBlobs = Some e \<longrightarrow>
          handler p req st = caught st e)
   \<and> (\<forall>k e. req_method req = ''GET'' \<and> slug_of (pathname req) = None
          \<and> rejects p ListBlobs = None \<and> map_of st k \<noteq> None \<and> rejects p (Get k) = Some e \<longrightarrow>
          (\<exists>e'. handler p req st = caught st e'))
   \<and> (\<forall>k e. req_method req = ''DELETE'' \<and> slug_of (pathname req) = Some k
          \<and> rejects p (Delete k) = Some e \<longrightarrow>
          handler p req st = caught st e)"
proof -
  have other: "handler p req st =
        \<lparr>reply = json_response 405 (error_body ''Method not allowed''),
         store_after = st, logged = []\<rparr>"
    if "req_method req \<noteq> ''GET''" "req_method req \<noteq> ''POST''" "req_method req \<noteq> ''DELETE''"
    using that by (simp add: handler_Inr dispatch_other)
  have parse: "handler p req st = caught st e"
    if "req_method req = ''POST''" "json_body req = Inl e" for e
    using that by (simp add: handler_def dispatch_POST post_def)
  have null: "handler p req st = caught st TypeError"
    if "req_method req = ''POST''" "json_body req = Inr JNull"
    using that by (simp add: handler_def dispatch_POST post_def)
  have pget: "handler p req st = caught st e"
    if "req_method req = ''POST''" "json_body req = Inr (JObj fs)"
      "map_of fs ''slug'' = Some (JStr s)" "s \<noteq> []" "truthy_opt (map_of fs ''title'')"
      "rejects p (Get (sanitize s)) = Some e" for fs s e
    using that(1) post_rejected_get [OF that(2-6)] by (simp add: handler_def dispatch_POST)
  have pset: "handler p req st = caught st e"
    if "req_method req = ''POST''" "json_body req = Inr (JObj fs)"
      "map_of fs ''slug'' = Some (JStr s)" "s \<noteq> []" "truthy_opt (map_of fs ''title'')"
      "rejects p (Get (sanitize s)) = None" "rejects p (SetJSON (sanitize s)) = Some e" for fs s e
    using that(1) post_rejected_set [OF that(2-7)] by (simp add: handler_def dispatch_POST)
  have gone: "handler p req st = caught st e"
    if "req_method req = ''GET''" "slug_of (pathname req) = Some k" "rejects p (Get k) = Some e"
    for k e
    using that by (simp add: handler_def dispatch_GET_slug get_one_def store_get_def)
  have glist: "handler p req st = caught st e"
    if "req_method req = ''GET''" "slug_of (pathname req) = None" "rejects p ListBlobs = Some e"
    for e
    using that by (simp add: handler_def dispatch_GET_list get_list_def store_list_def)
  have gloop: "\<exists>e'. handler p req st = caught st e'"
    if a: "req_method req = ''GET''" "slug_of (pathname req) = None" "rejects p ListBlobs = None"
      "map_of st k \<noteq> None" "rejects p (Get k) = Some e"
    for k e
  proof -
    from a(4) have "k \<in> set (map fst st)"
      by (simp add: map_of_eq_None_iff)
    then obtain e' where "collect p st (map fst st) [] = Inl e'"
      using collect_rejects a(5) by blast
    then have "handler p req st = caught st e'"
      using a(1-3) by (simp add: handler_def dispatch_GET_list get_list_def store_list_def)
    then show ?thesis by blast
  qed
  have del: "handler p req st = caught st e"
    if "req_method req = ''DELETE''" "slug_of (pathname req) = Some k"
      "rejects p (Delete k) = Some e"
    for k e
    using that by (simp add: handler_def dispatch_DELETE_slug delete_one_def store_delete_def)
  show ?thesis
    apply (intro conjI allI impI)
    subgoal using other by blast
    subgoal by simp
    subgoal by simp
    subgoal using parse by blast
    subgoal using null by blast
    subgoal using pget by blast
    subgoal using pset by blast
    subgoal using gone by blast
    subgoal using glist by blast
    subgoal using gloop by blast
    subgoal using del by blast
    done
qed

theorem errors_to_status_witness:
  "handler outage (bare_request ''PUT'' ''/api/articles/a'') [(''a'', JObj [])]
     = \<lparr>reply = json_response 405 (error_body ''Method not allowed''),
        store_after = [(''a'', JObj [])], logged = []\<rparr>
   \<and> handler quiet \<lparr>req_method = ''POST'', pathname = ''/api/articles'',
          json_body = Inl (Thrown ''Unexpected token'')\<rparr> []
     = caught [] (Thrown ''Unexpected token'')
   \<and> handler quiet (post_request JNull) [] = caught [] TypeError
   \<and> handler outage (post_request (JObj [(''slug'', JStr ''a''), (''title'', JStr ''t'')])) []
     = caught [] (Thrown ''store unavailable'')
   \<and> handler write_refused (post_request (JObj [(''slug'', JStr ''a''), (''title'', JStr ''t'')])) []
     = caught [] (Thrown ''write refused'')
   \<and> handler outage (bare_request ''GET'' ''/api/articles/a'') [(''a'', JObj [])]
     = caught [(''a'', JObj [])] (Thrown ''store unavailable'')
   \<and> handler outage (bare_request ''GET'' ''/api/articles'') [(''a'', JObj [])]
     = caught [(''a'', JObj [])] (Thrown ''store unavailable'')
   \<and> reply (handler read_refused (bare_request ''GET'' ''/api/articles'') [(''a'', JObj [])])
     = json_response 500 (error_body ''Internal server error'')
   \<and> handler outage (bare_request ''DELETE'' ''/api/articles/a'') [(''a'', JObj [])]
     = caught [(''a'', JObj [])] (Thrown ''store unavailable'')"
proof -
  let ?valid = "post_request (JObj [(''slug'', JStr ''a''), (''title'', JStr ''t'')])"
  let ?st = "[(''a'', JObj [])]"
  have s: "sanitize ''a'' = ''a''" by code_simp
  have one: "slug_of ''/api/articles/a'' = Some ''a''"
    by (simp add: slug_of_def pathParts_def)
  have none: "slug_of ''/api/articles'' = None"
    by (simp add: slug_of_def pathParts_def)
  have 1: "handler outage (bare_request ''PUT'' ''/api/articles/a'') ?st
     = \<lparr>reply = json_response 405 (error_body ''Method not allowed''),
        store_after = ?st, logged = []\<rparr>"
    using errors_to_status [of "bare_request ''PUT'' ''/api/articles/a''" outage ?st]
    by (simp add: bare_request_def)
  have 2: "handler quiet \<lparr>req_method = ''POST'', pathname = ''/api/articles'',
          json_body = Inl (Thrown ''Unexpected token'')\<rparr> []
     = caught [] (Thrown ''Unexpected token'')"
    using errors_to_status [of "\<lparr>req_method = ''POST'', pathname = ''/api/articles'',
          json_body = Inl (Thrown ''Unexpected token'')\<rparr>" quiet "[]"]
    by simp
  have 3: "handler quiet (post_request JNull) [] = caught [] TypeError"
    using errors_to_status [of "post_request JNull" quiet "[]"]
    by (simp add: post_request_def)
  have 4: "handler outage ?valid [] = caught [] (Thrown ''store unavailable'')"
    using errors_to_status [of ?valid outage "[]"]
    by (simp add: post_request_def outage_def s)
  have 5: "handler write_refused ?valid [] = caught [] (Thrown ''write refused'')"
    using errors_to_status [of ?valid write_refused "[]"]
    by (simp add: post_request_def write_refused_def s)
  have 6: "handler outage (bare_request ''GET'' ''/api/articles/a'') ?st
     = caught ?st (Thrown ''store unavailable'')"
    using errors_to_status [of "bare_request ''GET'' ''/api/articles/a''" outage ?st]
    by (simp add: bare_request_def outage_def one)
  have 7: "handler outage (bare_request ''GET'' ''/api/articles'') ?st
     = caught ?st (Thrown ''store unavailable'')"
    using errors_to_status [of "bare_request ''GET'' ''/api/articles''" outage ?st]
    by (simp add: bare_request_def outage_def none)
  have "\<exists>e'. handler read_refused (bare_request ''GET'' ''/api/articles'') ?st = caught ?st e'"
    using errors_to_status [of "bare_request ''GET'' ''/api/articles''" read_refused ?st]
    by (simp add: bare_request_def read_refused_def none)
  then have 8: "reply (handler read_refused (bare_request ''GET'' ''/api/articles'') ?st)
     = json_response 500 (error_body ''Internal server error'')"
    by auto
  have 9: "handler outage (bare_request ''DELETE'' ''/api/articles/a'') ?st
     = caught ?st (Thrown ''store unavailable'')"
    using errors_to_status [of "bare_request ''DELETE'' ''/api/articles/a''" outage ?st]
    by (simp add: bare_request_def outage_def one)
  from 1 2 3 4 5 6 7 8 9 show ?thesis by blast
qed

subsection \<open>GET without a slug\<close>

lemma collect_all:
  "\<forall>k\<in>set ks. rejects p (Get k) = None \<Longrightarrow>
   collect p st ks articles =
     Inr (articles @ filter is_published
            (map (\<lambda>k. case map_of st k of None \<Rightarrow> JNull | Some v \<Rightarrow> v) ks))"
  by (induction ks arbitrary: articles) (simp_all add: store_get_def)

lemma lookup_keys:
  assumes "distinct (map fst st)"
  shows "map (\<lambda>k. case map_of st k of None \<Rightarrow> JNull | Some v \<Rightarrow> v) (map fst st) = map snd st"
proof -
  have "(case map_of st (fst kv) of None \<Rightarrow> JNull | Some v \<Rightarrow> v) = snd kv"
    if "kv \<in> set st" for kv
  proof -
    from that have "(fst kv, snd kv) \<in> set st" by simp
    with assms have "map_of st (fst kv) = Some (snd kv)"
      by (rule map_of_is_SomeI)
    then show ?thesis by simp
  qed
  then show ?thesis by simp
qed

lemma mset_insert_sorted: "mset (insert_sorted c x ys) = add_mset x (mset ys)"
  by (induction ys) simp_all

lemma mset_array_sort: "mset (array_sort c xs) = mset xs"
  by (induction xs) (simp_all add: array_sort_def mset_insert_sorted)

lemma sortCompare_parsed:
  "parses p x \<Longrightarrow> parses p y \<Longrightarrow>
   sortCompare (compare_publishedAt p) x y = spec_timestamp p y - spec_timestamp p x"
  by (auto simp: sortCompare_def compare_publishedAt_def parses_def spec_timestamp_def)

lemma insert_sorted_insort_key:
  "parses p x \<Longrightarrow> list_all (parses p) ys \<Longrightarrow>
   insert_sorted (compare_publishedAt p) x ys = insort_key (\<lambda>a. - spec_timestamp p a) x ys"
  by (induction ys) (simp_all add: sortCompare_parsed)

lemma array_sort_sort_key:
  "list_all (parses p) xs \<Longrightarrow>
   array_sort (compare_publishedAt p) xs = sort_key (\<lambda>a. - spec_timestamp p a) xs"
proof (induction xs)
  case Nil
  then show ?case by (simp add: array_sort_def)
next
  case (Cons x xs)
  then have eq: "array_sort (compare_publishedAt p) xs = sort_key (\<lambda>a. - spec_timestamp p a) xs"
    by simp
  have "list_all (parses p) (sort_key (\<lambda>a. - spec_timestamp p a) xs)"
    using Cons.prems by (simp add: list_all_iff)
  with Cons.prems eq show ?case
    using insert_sorted_insort_key [of p x "sort_key (\<lambda>a. - spec_timestamp p a) xs"]
    by (simp add: array_sort_def)
qed

lemma descending_sort_key:
  "sorted_wrt (\<lambda>a b. spec_timestamp p b \<le> spec_timestamp p a)
     (sort_key (\<lambda>a. - spec_timestamp p a) xs)"
proof -
  have "sorted (map (\<lambda>a. - spec_timestamp p a) (sort_key (\<lambda>a. - spec_timestamp p a) xs))"
    by (rule sorted_sort_key)
  then show ?thesis
    by (simp add: sorted_map)
qed

lemma get_list_ok:
  assumes "distinct (map fst st)" and "rejects p ListBlobs = None"
    and "\<forall>k\<in>set (map fst st). rejects p (Get k) = None"
  shows "get_list p st =
      Inr (json_response 200
             (JArr (array_sort (compare_publishedAt p) (filter is_published (map snd st)))), st)"
proof -
  have "collect p st (map fst st) [] = Inr (filter is_published (map snd st))"
    unfolding collect_all [OF assms(3)] lookup_keys [OF assms(1)] by simp
  with assms(2) show ?thesis
    by (simp add: get_list_def store_list_def)
qed

text \<open>
  Claim C3, amended. A GET without a slug segment, on a store that lists and reads without
  throwing, is answered with 200 and an array that holds exactly the stored documents that are
  truthy and have the status \<open>"published"\<close>, each as often as it is stored. When the
  \<open>publishedAt\<close> of every one of them parses, the array is in descending order of the
  timestamps: it is the stable sort of the published documents in listing order. On the empty
  store the array is empty. Nothing is said of the order when a \<open>publishedAt\<close> does not
  parse.
\<close>

theorem list_published:
  assumes "req_method req = ''GET''" and "slug_of (pathname req) = None"
    and "distinct (map fst st)" and "rejects p ListBlobs = None"
    and "\<forall>k\<in>set (map fst st). rejects p (Get k) = None"
  shows "\<exists>articles.
      handler p req st =
        \<lparr>reply = json_response 200 (JArr articles), store_after = st, logged = []\<rparr>
      \<and> mset articles = mset (filter is_published (map snd st))
      \<and> (list_all (parses p) (filter is_published (map snd st)) \<longrightarrow>
            sorted_wrt (\<lambda>a b. spec_timestamp p b \<le> spec_timestamp p a) articles
            \<and> articles = sort_key (\<lambda>a. - spec_timestamp p a) (filter is_published (map snd st)))
      \<and> (st = [] \<longrightarrow> articles = [])"
proof -
  let ?published = "filter is_published (map snd st)"
  let ?articles = "array_sort (compare_publishedAt p) ?published"
  have "handler p req st =
        \<lparr>reply = json_response 200 (JArr ?articles), store_after = st, logged = []\<rparr>"
    using assms(1,2) get_list_ok [OF assms(3-5)] by (simp add: handler_Inr dispatch_GET_list)
  moreover have "mset ?articles = mset ?published"
    by (rule mset_array_sort)
  moreover have "sorted_wrt (\<lambda>a b. spec_timestamp p b \<le> spec_timestamp p a) ?articles
      \<and> ?articles = sort_key (\<lambda>a. - spec_timestamp p a) ?published"
    if "list_all (parses p) ?published"
    using that descending_sort_key [of p ?published] by (simp add: array_sort_sort_key)
  moreover have "?articles = []" if "st = []"
    using that by (simp add: array_sort_def)
  ultimately show ?thesis by blast
qed

theorem list_published_witness:
  "reply (handler quiet (bare_request ''GET'' ''/api/articles'')
      [(''a'', JObj [(''slug'', JStr ''a''), (''status'', JStr ''published''),
                     (''publishedAt'', JStr ''2024-01-01'')]),
       (''b'', JObj [(''slug'', JStr ''b''), (''status'', JStr ''draft''),
                     (''publishedAt'', JStr ''2024-06-01'')]),
       (''c'', JObj [(''slug'', JStr ''c''), (''status'', JStr ''published''),
                     (''publishedAt'', JStr ''2024-06-01'')])])
     = json_response 200 (JArr
        [JObj [(''slug'', JStr ''c''), (''status'', JStr ''published''),
               (''publishedAt'', JStr ''2024-06-01'')],
         JObj [(''slug'', JStr ''a''), (''status'', JStr ''published''),
               (''publishedAt'', JStr ''2024-01-01'')]])
   \<and> reply (handler quiet (bare_request ''GET'' ''/api/articles'') [])
     = json_response 200 (JArr [])"
proof -
  let ?req = "bare_request ''GET'' ''/api/articles''"
  let ?A = "JObj [(''slug'', JStr ''a''), (''status'', JStr ''published''),
                     (''publishedAt'', JStr ''2024-01-01'')]"
  let ?B = "JObj [(''slug'', JStr ''b''), (''status'', JStr ''draft''),
                     (''publishedAt'', JStr ''2024-06-01'')]"
  let ?C = "JObj [(''slug'', JStr ''c''), (''status'', JStr ''published''),
                     (''publishedAt'', JStr ''2024-06-01'')]"
  let ?st = "[(''a'', ?A), (''b'', ?B), (''c'', ?C)]"
  have m: "req_method ?req = ''GET''" and s: "slug_of (pathname ?req) = None"
    by (simp_all add: bare_request_def slug_of_def pathParts_def)
  have l: "rejects quiet ListBlobs = None" by (simp add: quiet_def)
  have d: "distinct (map fst ?st)" "distinct (map fst ([] :: blobs))" by simp_all
  have g: "\<forall>k\<in>set (map fst ?st). rejects quiet (Get k) = None"
    "\<forall>k\<in>set (map fst ([] :: blobs)). rejects quiet (Get k) = None"
    by (simp_all add: quiet_def)
  have pub: "filter is_published (map snd ?st) = [?A, ?C]"
    by (simp add: is_published_def)
  have ta: "spec_timestamp quiet ?A = 1704067200000" and tc: "spec_timestamp quiet ?C = 1717200000000"
    by (simp_all add: spec_timestamp_def quiet_def example_getTime_def)
  have par: "list_all (parses quiet) [?A, ?C]"
    by (simp add: parses_def quiet_def example_getTime_def)
  have srt: "sort_key (\<lambda>a. - spec_timestamp quiet a) [?A, ?C] = [?C, ?A]"
    by (simp add: ta tc)
  obtain articles where "handler quiet ?req ?st =
        \<lparr>reply = json_response 200 (JArr articles), store_after = ?st, logged = []\<rparr>"
    and "list_all (parses quiet) (filter is_published (map snd ?st)) \<longrightarrow>
          articles = sort_key (\<lambda>a. - spec_timestamp quiet a) (filter is_published (map snd ?st))"
    using list_published [OF m s d(1) l g(1)] by blast
  then have 1: "reply (handler quiet ?req ?st) = json_response 200 (JArr [?C, ?A])"
    using par srt unfolding pub by simp
  obtain none where "handler quiet ?req [] =
        \<lparr>reply = json_response 200 (JArr none), store_after = [], logged = []\<rparr>"
    and "none = []"
    using list_published [OF m s d(2) l g(2)] by blast
  then have 2: "reply (handler quiet ?req []) = json_response 200 (JArr [])"
    by simp
  from 1 2 show ?thesis by blast
qed

text \<open>
  The claim as stated fails on an entry whose \<open>publishedAt\<close> does not parse: its
  timestamp is \<open>NaN\<close> and not 0, every comparison with it counts as equal, and the entry
  stays where the listing has it. Here it stays in front of an entry of 2024, which the
  timestamp 0 would put first.
\<close>

theorem list_unparseable_counterexample:
  "reply (handler quiet (bare_request ''GET'' ''/api/articles'')
      [(''x'', JObj [(''slug'', JStr ''x''), (''status'', JStr ''published''),
                     (''publishedAt'', JStr ''soon'')]),
       (''y'', JObj [(''slug'', JStr ''y''), (''status'', JStr ''published''),
                     (''publishedAt'', JStr ''2024-01-01'')])])
     = json_response 200 (JArr
        [JObj [(''slug'', JStr ''x''), (''status'', JStr ''published''),
               (''publishedAt'', JStr ''soon'')],
         JObj [(''slug'', JStr ''y''), (''status'', JStr ''published''),
               (''publishedAt'', JStr ''2024-01-01'')]])
   \<and> spec_timestamp quiet (JObj [(''slug'', JStr ''x''), (''status'', JStr ''published''),
               (''publishedAt'', JStr ''soon'')]) = 0
   \<and> spec_timestamp quiet (JObj [(''slug'', JStr ''y''), (''status'', JStr ''published''),
               (''publishedAt'', JStr ''2024-01-01'')]) = 1704067200000"
  by (simp add: handler_def dispatch_def bare_request_def slug_of_def pathParts_def
      get_list_def store_list_def store_get_def is_published_def array_sort_def
      sortCompare_def compare_publishedAt_def spec_timestamp_def quiet_def example_getTime_def)

end
